theory Spec2Isabelle
  imports Main "HOL-Library.Sublist"
begin

section \<open>Python values and built-in string operations\<close>

text \<open>
  Text is modelled as byte strings (\<open>char list\<close>); digits, letters and white space are the
  ASCII ones. Exceptions are values: every function of the program that can raise returns
  \<open>error + 'a\<close>, with \<open>Inl\<close> the exception.
\<close>

datatype error = ValueError | IndexError | TypeError

definition is_digit :: "char \<Rightarrow> bool" where
  "is_digit c = (c \<in> set ''0123456789'')"

definition digit_val :: "char \<Rightarrow> nat" where
  "digit_val c = of_char c - 48"

definition digit_char :: "nat \<Rightarrow> char" where
  "digit_char d = ''0123456789'' ! d"

text \<open>White space as \<open>str.strip\<close> and \<open>int\<close> see it: tab to carriage return, the four
  separators 28 to 31, and the blank.\<close>

definition is_space :: "char \<Rightarrow> bool" where
  "is_space c = (let n = (of_char c :: nat) in (9 \<le> n \<and> n \<le> 13) \<or> (28 \<le> n \<and> n \<le> 32))"

definition strip :: "string \<Rightarrow> string" where
  "strip s = rev (dropWhile is_space (rev (dropWhile is_space s)))"

definition lower_char :: "char \<Rightarrow> char" where
  "lower_char c = (let n = (of_char c :: nat) in if 65 \<le> n \<and> n \<le> 90 then char_of (n + 32) else c)"

definition lower :: "string \<Rightarrow> string" where
  "lower s = map lower_char s"

text \<open>\<open>s.partition(sep)\<close> and \<open>s.rpartition(sep)\<close> for a one-character separator.\<close>

definition str_partition :: "char \<Rightarrow> string \<Rightarrow> string \<times> string \<times> string" where
  "str_partition sep s =
     (if sep \<in> set s
      then (takeWhile (\<lambda>c. c \<noteq> sep) s, [sep], tl (dropWhile (\<lambda>c. c \<noteq> sep) s))
      else (s, [], []))"

definition str_rpartition :: "char \<Rightarrow> string \<Rightarrow> string \<times> string \<times> string" where
  "str_rpartition sep s =
     (if sep \<in> set s
      then (rev (tl (dropWhile (\<lambda>c. c \<noteq> sep) (rev s))), [sep], rev (takeWhile (\<lambda>c. c \<noteq> sep) (rev s)))
      else ([], [], s))"

text \<open>\<open>s.split(sep)\<close> for a one-character separator: always at least one piece.\<close>

fun split_on :: "char \<Rightarrow> string \<Rightarrow> string list" where
  "split_on sep [] = [[]]"
| "split_on sep (c # cs) =
     (if c = sep then [] # split_on sep cs
      else (case split_on sep cs of [] \<Rightarrow> [[c]] | w # ws \<Rightarrow> (c # w) # ws))"

text \<open>\<open>sep.join(xs)\<close>.\<close>

fun join :: "string \<Rightarrow> string list \<Rightarrow> string" where
  "join sep [] = []"
| "join sep [x] = x"
| "join sep (x # y # ys) = x @ sep @ join sep (y # ys)"

text \<open>\<open>t in s\<close> on strings: \<open>t\<close> occurs in \<open>s\<close> as a contiguous piece.\<close>

fun contains :: "string \<Rightarrow> string \<Rightarrow> bool" where
  "contains [] t = (t = [])"
| "contains (c # cs) t = (prefix t (c # cs) \<or> contains cs t)"

text \<open>
  \<open>int(s)\<close> in base ten: surrounding white space is dropped, one sign may lead, and the
  digits may be grouped by single underscores (\<open>int("1_000") = 1000\<close>); anything else is a
  \<open>ValueError\<close>. The bound that recent interpreters put on the number of digits is left
  out.
\<close>

fun int_body :: "nat \<Rightarrow> string \<Rightarrow> nat option" where
  "int_body acc [] = Some acc"
| "int_body acc (c # cs) =
     (if is_digit c then int_body (10 * acc + digit_val c) cs
      else if c = CHR ''_''
      then (case cs of [] \<Rightarrow> None | d # ds \<Rightarrow> if is_digit d then int_body acc cs else None)
      else None)"

definition py_nat :: "string \<Rightarrow> nat option" where
  "py_nat s = (case s of [] \<Rightarrow> None | c # cs \<Rightarrow> if is_digit c then int_body 0 s else None)"

definition py_int :: "string \<Rightarrow> error + int" where
  "py_int s =
     (case strip s of
        [] \<Rightarrow> Inl ValueError
      | c # cs \<Rightarrow>
          if c = CHR ''-'' then (case py_nat cs of None \<Rightarrow> Inl ValueError | Some n \<Rightarrow> Inr (- int n))
          else if c = CHR ''+'' then (case py_nat cs of None \<Rightarrow> Inl ValueError | Some n \<Rightarrow> Inr (int n))
          else (case py_nat (c # cs) of None \<Rightarrow> Inl ValueError | Some n \<Rightarrow> Inr (int n)))"

text \<open>\<open>str(n)\<close> of an integer, as the f-strings of \<open>Entry.__str__\<close> print it.\<close>

fun str_nat :: "nat \<Rightarrow> string" where
  "str_nat n = (if n < 10 then [digit_char n] else str_nat (n div 10) @ [digit_char (n mod 10)])"

declare str_nat.simps [simp del]

definition str_int :: "int \<Rightarrow> string" where
  "str_int i = (if i < 0 then CHR ''-'' # str_nat (nat (- i)) else str_nat (nat i))"

text \<open>A list comprehension whose body may raise stops at the first exception.\<close>

fun map_err :: "('a \<Rightarrow> error + 'b) \<Rightarrow> 'a list \<Rightarrow> error + 'b list" where
  "map_err f [] = Inr []"
| "map_err f (x # xs) =
     (case f x of Inl e \<Rightarrow> Inl e
      | Inr y \<Rightarrow> (case map_err f xs of Inl e \<Rightarrow> Inl e | Inr ys \<Rightarrow> Inr (y # ys)))"

section \<open>The helper module \<open>src.utils\<close>\<close>

text \<open>
  The module \<open>src.utils\<close> (imported as \<open>ut\<close>) is not part of the sources at hand.
  Its classifier \<open>check_numeric\<close> and its \<open>letter_to_number\<close> are taken as parameters:
  the record \<open>utils\<close> stands for the module object, and every function below that calls
  into it takes it as its first argument.
\<close>

record utils =
  check_numeric :: "string \<Rightarrow> bool"
  letter_to_number :: "string \<Rightarrow> error + int"

text \<open>
  Modelled from the spec: \<open>ut.strip_nonnumeric(s, leading, trailing)\<close>, missing from the
  sources. The specification of the section-number model says "strip any leading
  non-numeric characters from the whole string, strip trailing non-numeric characters"
  for the call with both flags set, and the buffer repair "strip[s] non-numeric trailing
  characters" for the call with the default flags (which are therefore
  \<open>leading = False\<close>, \<open>trailing = True\<close>).
\<close>

definition strip_nonnumeric :: "string \<Rightarrow> bool \<Rightarrow> bool \<Rightarrow> string" where
  "strip_nonnumeric s leading trailing =
     (let s1 = (if leading then dropWhile (\<lambda>c. \<not> is_digit c) s else s)
      in if trailing then rev (dropWhile (\<lambda>c. \<not> is_digit c) (rev s1)) else s1)"

section \<open>Entries of the table of contents\<close>

record entry =
  title :: string
  page :: int
  appendix :: bool
  chapter_no :: int
  section_no :: int
  subsection_no :: int

text \<open>The loop \<open>while len(section) < 3: section.append(0)\<close>.\<close>

function pad_section :: "int list \<Rightarrow> int list" where
  "pad_section xs = (if length xs < 3 then pad_section (xs @ [0]) else xs)"
  by pat_completeness auto
termination
  by (relation "measure (\<lambda>xs. 3 - length xs)") auto

declare pad_section.simps [simp del]

text \<open>The appendix branch of \<open>Entry.__init__\<close>: numeric components are read with
  \<open>int\<close>, the others go through \<open>ut.letter_to_number\<close>.\<close>

definition appendix_component :: "utils \<Rightarrow> string \<Rightarrow> error + int" where
  "appendix_component ut s = (if check_numeric ut s then py_int s else letter_to_number ut s)"

text \<open>
  \<open>Entry.__init__(section, title, page)\<close>. The page is converted first, so a page token
  that is no integer raises before the section is looked at. After the padding loop the
  list has at least three elements, so the three reads are in range.
\<close>

definition Entry_init :: "utils \<Rightarrow> string \<Rightarrow> string \<Rightarrow> string \<Rightarrow> error + entry" where
  "Entry_init ut sec ttl pg =
     (case py_int pg of
        Inl e \<Rightarrow> Inl e
      | Inr p \<Rightarrow>
          (let is_app = prefix ''appendix '' (lower sec) in
           case (if is_app
                 then map_err (appendix_component ut) (split_on (CHR ''.'') (drop 9 sec))
                 else map_err py_int (split_on (CHR ''.'') (strip_nonnumeric sec True True)))
           of Inl e \<Rightarrow> Inl e
            | Inr nums \<Rightarrow>
                (let s = pad_section nums
                 in Inr \<lparr>title = ttl, page = p, appendix = is_app,
                         chapter_no = s ! 0, section_no = s ! 1, subsection_no = s ! 2\<rparr>)))"

text \<open>\<open>Entry.__str__\<close>: the label of an entry in the outline.\<close>

definition Entry_str :: "entry \<Rightarrow> string" where
  "Entry_str e =
     (if appendix e then ''[UNHANDLED APPENDIX]''
      else if subsection_no e \<noteq> 0
      then str_int (chapter_no e) @ ''.'' @ str_int (section_no e) @ ''.'' @ str_int (subsection_no e)
           @ '' - '' @ title e @ '' (page '' @ str_int (page e) @ '')''
      else if section_no e \<noteq> 0
      then str_int (chapter_no e) @ ''.'' @ str_int (section_no e)
           @ '' - '' @ title e @ '' (page '' @ str_int (page e) @ '')''
      else ''Ch. '' @ str_int (chapter_no e) @ '' - '' @ title e @ '' (page '' @ str_int (page e) @ '')'')"

section \<open>Splitting a line and repairing the buffer\<close>

definition split_line :: "string \<Rightarrow> string \<times> string \<times> string" where
  "split_line line =
     (case str_partition (CHR '' '') line of (sec, _, ttl) \<Rightarrow>
        (case (if lower sec = ''appendix''
               then (case str_partition (CHR '' '') ttl of (sec', _, ttl') \<Rightarrow> (''Appendix '' @ sec', ttl'))
               else (sec, ttl))
         of (sec1, ttl1) \<Rightarrow>
           (case str_rpartition (CHR '' '') ttl1 of (ttl2, _, pg) \<Rightarrow> (sec1, ttl2, pg))))"

definition clean_buffer :: "string \<times> string \<times> string \<Rightarrow> string \<times> string \<times> string" where
  "clean_buffer buffer =
     (case buffer of (b0, b1, b2) \<Rightarrow>
        split_line (strip_nonnumeric (b0 @ '' '' @ b1 @ '' '' @ b2) False True))"

section \<open>Documents, page offset and detection of the table of contents\<close>

text \<open>
  A page is the list of its lines, \<open>page.extract_text().splitlines()\<close>; a document is
  the list \<open>document.pages\<close>.
\<close>

type_synonym pdf_page = "string list"
type_synonym document = "pdf_page list"

text \<open>
  \<open>offset_first_page\<close> changes the entries in place and returns the list, or falls off
  the end of the loop and returns \<open>None\<close>. The result is the pair of the entry list as
  it stands after the call and the returned value. \<open>contents[0]\<close> is read once per page
  visited and raises \<open>IndexError\<close> on an empty list.
\<close>

fun offset_loop :: "nat \<Rightarrow> document \<Rightarrow> entry list \<Rightarrow> error + (entry list \<times> entry list option)" where
  "offset_loop i [] contents = Inr (contents, None)"
| "offset_loop i (pg # pgs) contents =
     (case contents of
        [] \<Rightarrow> Inl IndexError
      | c # _ \<Rightarrow>
          if contains (join '' '' (take 3 pg)) (title c)
          then (let cs = map (\<lambda>e. e\<lparr>page := page e + (int i - 1)\<rparr>) contents in Inr (cs, Some cs))
          else offset_loop (Suc i) pgs contents)"

definition offset_first_page :: "document \<Rightarrow> entry list \<Rightarrow> error + (entry list \<times> entry list option)" where
  "offset_first_page doc contents = offset_loop 0 doc contents"

text \<open>
  \<open>re.match(r"^.*\D\d", line)\<close>: somewhere in the line a digit follows a character that
  is no digit, and no line break comes before that pair (\<open>.\<close> does not match one).
\<close>

fun line_matches :: "string \<Rightarrow> bool" where
  "line_matches (a # b # cs) =
     ((\<not> is_digit a \<and> is_digit b) \<or> (a \<noteq> CHR 0x0A \<and> line_matches (b # cs)))"
| "line_matches _ = False"

definition cond_lines :: "pdf_page \<Rightarrow> string list" where
  "cond_lines all_lines = filter line_matches all_lines"

text \<open>\<open>len(cond_lines) > 0.75 * len(all_lines)\<close>; 0.75 is a binary fraction, so the
  comparison is the exact one, \<open>4 * c > 3 * n\<close>.\<close>

definition over_threshold :: "pdf_page \<Rightarrow> bool" where
  "over_threshold all_lines = (4 * length (cond_lines all_lines) > 3 * length all_lines)"

text \<open>
  The loop of \<open>identify_toc\<close> over the remaining pages, from the state
  \<open>(toc_text, toc_found)\<close>. The third component of the result says whether the loop
  was left by \<open>break\<close>.
\<close>

fun toc_loop :: "document \<Rightarrow> string list \<times> bool \<Rightarrow> string list \<times> bool \<times> bool" where
  "toc_loop [] (toc_text, toc_found) = (toc_text, toc_found, False)"
| "toc_loop (all_lines # pgs) (toc_text, toc_found) =
     (if over_threshold all_lines
      then (if \<not> toc_found \<and> length all_lines < 10
            then toc_loop pgs (toc_text, toc_found)
            else toc_loop pgs (toc_text @ all_lines, True))
      else if toc_found then (toc_text, toc_found, True)
      else toc_loop pgs (toc_text, toc_found))"

text \<open>
  \<open>identify_toc\<close> with \<open>verbose = False\<close>: the lines printed, and the text returned. The
  \<open>else\<close> of the \<open>for\<close> runs when the loop was not left by \<open>break\<close>.
\<close>

definition identify_toc :: "document \<Rightarrow> string list \<times> string list" where
  "identify_toc doc =
     (case toc_loop doc ([], False) of (toc_text, toc_found, broke) \<Rightarrow>
        ([''Scanning for table of contents...'']
           @ (if broke then [] else [''No table of contents found!'']),
         toc_text))"

section \<open>The stitcher \<open>parse_toc\<close>\<close>

text \<open>
  The buffer is empty (\<open>[]\<close> or \<open>()\<close>) or a triple of strings. One round of the loop
  classifies the line by \<open>(bool(len(buffer)), check_numeric(section), check_numeric(page))\<close>.
\<close>

type_synonym buffer = "(string \<times> string \<times> string) option"

definition stitch_step :: "utils \<Rightarrow> entry list \<times> buffer \<Rightarrow> string \<Rightarrow> error + (entry list \<times> buffer)" where
  "stitch_step ut st line =
     (case st of (contents, buffer) \<Rightarrow>
      case split_line line of (sec, ttl, pg) \<Rightarrow>
        (case buffer of
           None \<Rightarrow>
             if check_numeric ut sec
             then (if check_numeric ut pg
                   then \<comment> \<open>\<open>[False, True, True]\<close>\<close>
                        (case Entry_init ut sec ttl pg of
                           Inl e \<Rightarrow> Inl e
                         | Inr x \<Rightarrow> Inr (contents @ [x], None))
                   else \<comment> \<open>\<open>[False, True, False]\<close>\<close>
                        Inr (contents, Some (sec, ttl, pg)))
             else Inr (contents, None)
         | Some (b0, b1, b2) \<Rightarrow>
             if check_numeric ut sec
             then (case Entry_init ut (fst (clean_buffer (b0, b1, b2)))
                                      (fst (snd (clean_buffer (b0, b1, b2))))
                                      (snd (snd (clean_buffer (b0, b1, b2)))) of
                     Inl e \<Rightarrow> Inl e
                   | Inr x \<Rightarrow>
                       if check_numeric ut pg
                       then \<comment> \<open>\<open>[True, True, True]\<close>\<close>
                            (case Entry_init ut sec ttl pg of
                               Inl e \<Rightarrow> Inl e
                             | Inr y \<Rightarrow> Inr (contents @ [x] @ [y], None))
                       else \<comment> \<open>\<open>[True, True, False]\<close>\<close>
                            Inr (contents @ [x], Some (sec, ttl, pg)))
             else (if check_numeric ut pg
                   then \<comment> \<open>\<open>[True, False, True]\<close>\<close>
                        (case Entry_init ut b0 (b1 @ '' '' @ b2 @ '' '' @ sec @ '' '' @ ttl) pg of
                           Inl e \<Rightarrow> Inl e
                         | Inr x \<Rightarrow> Inr (contents @ [x], None))
                   else \<comment> \<open>\<open>[True, False, False]\<close>\<close>
                        Inr (contents, Some (b0, b1 @ '' '' @ b2 @ '' '' @ sec @ '' '' @ ttl, pg)))))"

fun stitch :: "utils \<Rightarrow> string list \<Rightarrow> entry list \<times> buffer \<Rightarrow> error + (entry list \<times> buffer)" where
  "stitch ut [] st = Inr st"
| "stitch ut (line # rest) st =
     (case stitch_step ut st line of Inl e \<Rightarrow> Inl e | Inr st' \<Rightarrow> stitch ut rest st')"

text \<open>
  \<open>parse_toc\<close> with \<open>verbose = False\<close>: the line printed, and the value returned (the
  value of \<open>offset_first_page\<close>, where \<open>None\<close> is Python's \<open>None\<close>) or the exception raised.
\<close>

definition parse_toc :: "utils \<Rightarrow> document \<Rightarrow> string list \<Rightarrow> string list \<times> (error + entry list option)" where
  "parse_toc ut doc toc_text =
     ([''Parsing table of contents...''],
      (case stitch ut toc_text ([], None) of
         Inl e \<Rightarrow> Inl e
       | Inr (contents, buffer) \<Rightarrow>
           (case offset_first_page doc contents of Inl e \<Rightarrow> Inl e | Inr (cs, r) \<Rightarrow> Inr r)))"

section \<open>The hierarchy of \<open>add_bookmarks_to_pdf\<close>\<close>

text \<open>An integer is true when it is not zero; \<open>any\<close> and \<open>all\<close> are taken over the lists
  as the source writes them.\<close>

definition is_chapter_level :: "entry \<Rightarrow> bool" where
  "is_chapter_level e = (\<not> (section_no e \<noteq> 0 \<or> subsection_no e \<noteq> 0 \<or> appendix e))"

definition chapter_level :: "entry list \<Rightarrow> entry list" where
  "chapter_level contents = filter is_chapter_level contents"

definition section_group :: "entry list \<Rightarrow> entry \<Rightarrow> entry list" where
  "section_group contents ch =
     filter (\<lambda>e. chapter_no e = chapter_no ch \<and> section_no e \<noteq> 0
                 \<and> \<not> (subsection_no e \<noteq> 0 \<or> appendix e)) contents"

definition section_level :: "entry list \<Rightarrow> entry list list" where
  "section_level contents = map (section_group contents) (chapter_level contents)"

definition subsection_group :: "entry list \<Rightarrow> entry \<Rightarrow> entry \<Rightarrow> entry list" where
  "subsection_group contents ch sec =
     filter (\<lambda>e. chapter_no e = chapter_no ch \<and> section_no e = section_no sec
                 \<and> subsection_no e \<noteq> 0 \<and> \<not> appendix e) contents"

text \<open>\<open>section_level[i]\<close> is in range: \<open>section_level\<close> has one group per chapter.\<close>

definition subsection_level :: "entry list \<Rightarrow> entry list list list" where
  "subsection_level contents =
     map (\<lambda>(i, ch). map (subsection_group contents ch)
                        (filter (\<lambda>sec. chapter_no sec = chapter_no ch) (section_level contents ! i)))
         (enumerate 0 (chapter_level contents))"

text \<open>
  The three groupings that \<open>add_bookmarks_to_pdf\<close> hands to the outline writer. Writing
  the outline is the work of an external library, inside a \<open>try\<close> that catches every
  exception, and is not modelled.
\<close>

definition add_bookmarks_to_pdf :: "entry list \<Rightarrow> entry list \<times> entry list list \<times> entry list list list" where
  "add_bookmarks_to_pdf contents =
     (chapter_level contents, section_level contents, subsection_level contents)"

text \<open>
  \<open>write_bookmarks\<close> with \<open>verbose = False\<close>, after the document has been read: the lines
  printed before the outline is written, and the groupings or the exception. A
  \<open>None\<close> from \<open>parse_toc\<close> makes the first comprehension of \<open>add_bookmarks_to_pdf\<close> raise
  \<open>TypeError\<close>, after its first \<open>print\<close>.
\<close>

definition write_bookmarks ::
  "utils \<Rightarrow> document \<Rightarrow> string list \<times> (error + entry list \<times> entry list list \<times> entry list list list)" where
  "write_bookmarks ut doc =
     (case identify_toc doc of (out1, toc_text) \<Rightarrow>
      case parse_toc ut doc toc_text of (out2, r) \<Rightarrow>
        (case r of
           Inl e \<Rightarrow> (out1 @ out2, Inl e)
         | Inr None \<Rightarrow> (out1 @ out2 @ [''Adding bookmarks to PDF...''], Inl TypeError)
         | Inr (Some contents) \<Rightarrow>
             (out1 @ out2 @ [''Adding bookmarks to PDF...''], Inr (add_bookmarks_to_pdf contents))))"

section \<open>Vocabulary of the statements\<close>

text \<open>A stand-in for the module \<open>src.utils\<close>, used where a statement is evaluated at a
  concrete input: a token counts as numeric when it is made of digits and dots, and a
  single capital letter has its position in the alphabet as its number.\<close>

definition example_utils :: utils where
  "example_utils =
     \<lparr>check_numeric = (\<lambda>s. s \<noteq> [] \<and> list_all (\<lambda>c. is_digit c \<or> c = CHR ''.'') s),
      letter_to_number = (\<lambda>s. case s of
          [c] \<Rightarrow> (let n = (of_char c :: nat) in if 65 \<le> n \<and> n \<le> 90 then Inr (int n - 64) else Inl ValueError)
        | _ \<Rightarrow> Inl ValueError)\<rparr>"

text \<open>A component of a dotted section number: a non-empty run of digits, and the number
  it denotes.\<close>

definition digit_string :: "string \<Rightarrow> bool" where
  "digit_string s = (s \<noteq> [] \<and> list_all is_digit s)"

definition dec_value :: "string \<Rightarrow> nat" where
  "dec_value s = foldl (\<lambda>n c. 10 * n + digit_val c) 0 s"

text \<open>The test of \<open>offset_first_page\<close> on one page, and the change it makes to the
  entries.\<close>

definition title_on_page :: "pdf_page \<Rightarrow> string \<Rightarrow> bool" where
  "title_on_page pg ttl = contains (join '' '' (take 3 pg)) ttl"

definition shift_pages :: "int \<Rightarrow> entry list \<Rightarrow> entry list" where
  "shift_pages d contents = map (\<lambda>e. e\<lparr>page := page e + d\<rparr>) contents"



text \<open>Two of the classes of lines of \<open>parse_toc\<close>: a line that opens a multi-line entry
  (numeric section token, page token not numeric) and a line that continues one
  (neither token numeric).\<close>

definition opens_entry :: "utils \<Rightarrow> string \<Rightarrow> bool" where
  "opens_entry ut line =
     (case split_line line of (sec, ttl, pg) \<Rightarrow> check_numeric ut sec \<and> \<not> check_numeric ut pg)"

definition continues_entry :: "utils \<Rightarrow> string \<Rightarrow> bool" where
  "continues_entry ut line =
     (case split_line line of (sec, ttl, pg) \<Rightarrow> \<not> check_numeric ut sec \<and> \<not> check_numeric ut pg)"

text \<open>
  The levels of an entry that is no chapter-level entry, and the number of groups of the
  hierarchy in which an entry occurs: the chapter-level list, the section-level lists
  (one per chapter-level entry) and the subsection-level lists (one per chapter-level
  entry and entry of its section-level list).
\<close>

definition is_section_level :: "entry \<Rightarrow> bool" where
  "is_section_level e = (section_no e \<noteq> 0 \<and> subsection_no e = 0 \<and> \<not> appendix e)"

definition is_subsection_level :: "entry \<Rightarrow> bool" where
  "is_subsection_level e = (subsection_no e \<noteq> 0 \<and> \<not> appendix e)"

definition group_count :: "entry list \<Rightarrow> entry \<Rightarrow> nat" where
  "group_count contents e =
     (if e \<in> set (chapter_level contents) then 1 else 0)
     + length (filter (\<lambda>g. e \<in> set g) (section_level contents))
     + length (filter (\<lambda>g. e \<in> set g) (concat (subsection_level contents)))"

section \<open>Built-ins: padding, integers, splitting\<close>

lemma pad_section_eq: "pad_section xs = xs @ replicate (3 - length xs) 0"
proof (induction xs rule: pad_section.induct)
  case (1 xs)
  show ?case
  proof (cases "length xs < 3")
    case True
    then have "pad_section xs = pad_section (xs @ [0])" by (simp add: pad_section.simps[of xs])
    also have "\<dots> = (xs @ [0]) @ replicate (3 - length (xs @ [0])) 0" using 1 True by simp
    also have "\<dots> = xs @ replicate (3 - length xs) 0"
      using True by (simp add: replicate_append_same Suc_diff_Suc flip: replicate_Suc)
    finally show ?thesis .
  next
    case False
    then show ?thesis by (simp add: pad_section.simps[of xs])
  qed
qed

lemma is_digit_not_space: "is_digit c \<Longrightarrow> \<not> is_space c"
  by (auto simp: is_digit_def is_space_def)


lemma int_body_digits: "list_all is_digit s \<Longrightarrow> int_body acc s = Some (foldl (\<lambda>n c. 10 * n + digit_val c) acc s)"
  by (induction s arbitrary: acc) auto

lemma dropWhile_hd_id: "s \<noteq> [] \<Longrightarrow> \<not> P (hd s) \<Longrightarrow> dropWhile P s = s"
  by (cases s) auto

lemma strip_id: "s \<noteq> [] \<Longrightarrow> \<not> is_space (hd s) \<Longrightarrow> \<not> is_space (last s) \<Longrightarrow> strip s = s"
  by (simp add: strip_def dropWhile_hd_id hd_rev)

lemma strip_nonnumeric_id:
  "s \<noteq> [] \<Longrightarrow> is_digit (hd s) \<Longrightarrow> is_digit (last s) \<Longrightarrow> strip_nonnumeric s l t = s"
  by (simp add: strip_nonnumeric_def dropWhile_hd_id hd_rev)

lemma digit_string_hd_last: "digit_string s \<Longrightarrow> is_digit (hd s) \<and> is_digit (last s)"
  by (cases s) (auto simp: digit_string_def list_all_iff)

lemma py_int_digit_string: "digit_string s \<Longrightarrow> py_int s = Inr (int (dec_value s))"
proof -
  assume d: "digit_string s"
  then obtain c cs where s: "s = c # cs" by (cases s) (auto simp: digit_string_def)
  from d have hl: "is_digit (hd s)" "is_digit (last s)" using digit_string_hd_last by auto
  from d have ne: "s \<noteq> []" by (simp add: digit_string_def)
  have st: "strip s = s" using ne hl by (intro strip_id) (auto dest: is_digit_not_space)
  have c: "is_digit c" using hl s by simp
  then have c1: "c \<noteq> CHR ''-''" "c \<noteq> CHR ''+''" by (auto simp: is_digit_def)
  have "py_nat s = Some (dec_value s)"
    using d c s int_body_digits[of s 0] by (simp add: py_nat_def dec_value_def digit_string_def)
  then show ?thesis using st s c1 by (simp add: py_int_def)
qed

lemma split_on_nosep: "sep \<notin> set w \<Longrightarrow> split_on sep w = [w]"
  by (induction w) auto

lemma split_on_append: "sep \<notin> set w \<Longrightarrow> split_on sep (w @ sep # rest) = w # split_on sep rest"
  by (induction w) auto



section \<open>The section-number model\<close>

lemma not_appendix_digit: "s \<noteq> [] \<Longrightarrow> is_digit (hd s) \<Longrightarrow> \<not> prefix ''appendix '' (lower s)"
  by (cases s) (auto simp: lower_def lower_char_def is_digit_def Let_def)

lemma Entry_init_numbers:
  assumes "\<not> prefix ''appendix '' (lower sec)"
    and "map_err py_int (split_on (CHR ''.'') (strip_nonnumeric sec True True)) = Inr nums"
    and "py_int pg = Inr p"
  shows "Entry_init ut sec ttl pg =
           Inr \<lparr>title = ttl, page = p, appendix = False,
                chapter_no = (nums @ replicate (3 - length nums) 0) ! 0,
                section_no = (nums @ replicate (3 - length nums) 0) ! 1,
                subsection_no = (nums @ replicate (3 - length nums) 0) ! 2\<rparr>"
  using assms by (simp add: Entry_init_def pad_section_eq Let_def)







section \<open>A document without a table of contents\<close>

text \<open>
  Claim C1 asks that a document in which no page passes the detector ends with an empty
  entry list and without an exception. On a document of one page with the single line
  "Hello world" the detector prints its diagnostic and returns no line, and parsing that
  empty text raises \<open>IndexError\<close>: \<open>offset_first_page\<close> reads \<open>contents[0]\<close> of
  the empty entry list at the first page it visits.
\<close>

theorem write_bookmarks_no_toc_raises:
  "identify_toc [[''Hello world'']] =
     ([''Scanning for table of contents...'', ''No table of contents found!''], [])
   \<and> parse_toc example_utils [[''Hello world'']] [] =
     ([''Parsing table of contents...''], Inl IndexError)
   \<and> write_bookmarks example_utils [[''Hello world'']] =
     ([''Scanning for table of contents...'', ''No table of contents found!'',
       ''Parsing table of contents...''], Inl IndexError)"
proof -
  have i: "identify_toc [[''Hello world'']] =
     ([''Scanning for table of contents...'', ''No table of contents found!''], [])"
    by code_simp
  have p: "parse_toc example_utils [[''Hello world'']] [] =
     ([''Parsing table of contents...''], Inl IndexError)"
    by (simp add: parse_toc_def offset_first_page_def)
  show ?thesis using i p by (simp add: write_bookmarks_def)
qed

section \<open>The page offset\<close>

lemma offset_loop_first:
  "i < length doc \<Longrightarrow> title_on_page (doc ! i) (title c)
   \<Longrightarrow> list_all (\<lambda>pg. \<not> title_on_page pg (title c)) (take i doc)
   \<Longrightarrow> offset_loop k doc (c # cs) =
         Inr (shift_pages (int (k + i) - 1) (c # cs), Some (shift_pages (int (k + i) - 1) (c # cs)))"
proof (induction doc arbitrary: i k)
  case Nil
  then show ?case by simp
next
  case (Cons pg pgs)
  show ?case
  proof (cases i)
    case 0
    with Cons.prems show ?thesis by (simp add: title_on_page_def shift_pages_def Let_def)
  next
    case (Suc n)
    with Cons.prems have "\<not> title_on_page pg (title c)" by simp
    moreover have "offset_loop (Suc k) pgs (c # cs) =
         Inr (shift_pages (int (Suc k + n) - 1) (c # cs), Some (shift_pages (int (Suc k + n) - 1) (c # cs)))"
      using Cons.prems Suc by (intro Cons.IH) simp_all
    ultimately show ?thesis using Suc by (simp add: title_on_page_def)
  qed
qed

lemma offset_loop_none:
  "list_all (\<lambda>pg. \<not> title_on_page pg (title c)) doc \<Longrightarrow> offset_loop k doc (c # cs) = Inr (c # cs, None)"
  by (induction doc arbitrary: k) (simp_all add: title_on_page_def)

text \<open>
  Claim C7. For a non-empty entry list: when some page shows the title of the first
  entry in its first three lines (joined by blanks), and \<open>i\<close> is the index of the first
  such page, every entry's page number is increased by \<open>i - 1\<close> and the list is
  returned; when no page does, the entries are left as they are, nothing is raised, and
  the value returned is \<open>None\<close>.
\<close>

theorem offset_first_page_calibrates:
  "(i < length doc \<and> title_on_page (doc ! i) (title c)
      \<and> list_all (\<lambda>pg. \<not> title_on_page pg (title c)) (take i doc)
    \<longrightarrow> offset_first_page doc (c # cs) =
          Inr (shift_pages (int i - 1) (c # cs), Some (shift_pages (int i - 1) (c # cs))))
   \<and> (list_all (\<lambda>pg. \<not> title_on_page pg (title c)) doc
    \<longrightarrow> offset_first_page doc (c # cs) = Inr (c # cs, None))"
  using offset_loop_first[of i doc c 0 cs] offset_loop_none[of c doc 0 cs]
  by (simp add: offset_first_page_def)

text \<open>C7 on a document of three pages whose third page starts with the first title, and
  on a document that shows it nowhere.\<close>

theorem offset_first_page_calibrates_witness:
  "offset_first_page [[''Cover''], [''Contents'', ''1 Introduction 1''], [''1'', ''Introduction'', ''Text'']]
      [\<lparr>title = ''Introduction'', page = 1, appendix = False, chapter_no = 1, section_no = 0, subsection_no = 0\<rparr>,
       \<lparr>title = ''Background'', page = 3, appendix = False, chapter_no = 1, section_no = 1, subsection_no = 0\<rparr>]
    = Inr ([\<lparr>title = ''Introduction'', page = 1, appendix = False, chapter_no = 1, section_no = 0, subsection_no = 0\<rparr>,
            \<lparr>title = ''Background'', page = 3, appendix = False, chapter_no = 1, section_no = 1, subsection_no = 0\<rparr>],
           Some [\<lparr>title = ''Introduction'', page = 1, appendix = False, chapter_no = 1, section_no = 0, subsection_no = 0\<rparr>,
            \<lparr>title = ''Background'', page = 3, appendix = False, chapter_no = 1, section_no = 1, subsection_no = 0\<rparr>])
   \<and> offset_first_page [[''Cover''], [''Preface''], [''Contents''], [''1'', ''Introduction'', ''Text'']]
      [\<lparr>title = ''Introduction'', page = 1, appendix = False, chapter_no = 1, section_no = 0, subsection_no = 0\<rparr>,
       \<lparr>title = ''Background'', page = 3, appendix = False, chapter_no = 1, section_no = 1, subsection_no = 0\<rparr>]
    = Inr ([\<lparr>title = ''Introduction'', page = 3, appendix = False, chapter_no = 1, section_no = 0, subsection_no = 0\<rparr>,
            \<lparr>title = ''Background'', page = 5, appendix = False, chapter_no = 1, section_no = 1, subsection_no = 0\<rparr>],
           Some [\<lparr>title = ''Introduction'', page = 3, appendix = False, chapter_no = 1, section_no = 0, subsection_no = 0\<rparr>,
            \<lparr>title = ''Background'', page = 5, appendix = False, chapter_no = 1, section_no = 1, subsection_no = 0\<rparr>])
   \<and> offset_first_page [[''Cover''], [''Preface'']]
      [\<lparr>title = ''Introduction'', page = 1, appendix = False, chapter_no = 1, section_no = 0, subsection_no = 0\<rparr>,
       \<lparr>title = ''Background'', page = 3, appendix = False, chapter_no = 1, section_no = 1, subsection_no = 0\<rparr>]
    = Inr ([\<lparr>title = ''Introduction'', page = 1, appendix = False, chapter_no = 1, section_no = 0, subsection_no = 0\<rparr>,
            \<lparr>title = ''Background'', page = 3, appendix = False, chapter_no = 1, section_no = 1, subsection_no = 0\<rparr>],
           None)"
proof -
  let ?c = "\<lparr>title = ''Introduction'', page = 1, appendix = False, chapter_no = 1, section_no = 0, subsection_no = 0\<rparr>"
  let ?d = "\<lparr>title = ''Background'', page = 3, appendix = False, chapter_no = 1, section_no = 1, subsection_no = 0\<rparr>"
  let ?doc1 = "[[''Cover''], [''Contents'', ''1 Introduction 1''], [''1'', ''Introduction'', ''Text'']]"
  let ?doc2 = "[[''Cover''], [''Preface''], [''Contents''], [''1'', ''Introduction'', ''Text'']]"
  let ?doc3 = "[[''Cover''], [''Preface'']]"
  have t1: "title_on_page [''Contents'', ''1 Introduction 1''] ''Introduction''"
    by (simp add: title_on_page_def)
  have t2: "title_on_page [''1'', ''Introduction'', ''Text''] ''Introduction''"
    by (simp add: title_on_page_def)
  have n1: "\<not> title_on_page [''Cover''] ''Introduction''"
    by (simp add: title_on_page_def)
  have n2: "\<not> title_on_page [''Preface''] ''Introduction''"
    by (simp add: title_on_page_def)
  have n3: "\<not> title_on_page [''Contents''] ''Introduction''"
    by (simp add: title_on_page_def)
  show ?thesis
    using offset_first_page_calibrates[of 1 ?doc1 ?c "[?d]"]
          offset_first_page_calibrates[of 3 ?doc2 ?c "[?d]"]
          offset_first_page_calibrates[of 0 ?doc3 ?c "[?d]"]
          t1 t2 n1 n2 n3
    by (simp add: shift_pages_def numeral_3_eq_3)
qed

section \<open>The detector\<close>

lemma toc_loop_found_prefix: "prefix toc (fst (toc_loop doc (toc, True)))"
proof (induction doc arbitrary: toc)
  case Nil
  then show ?case by simp
next
  case (Cons pg pgs)
  have "prefix toc (toc @ pg)" by simp
  also have "prefix (toc @ pg) (fst (toc_loop pgs (toc @ pg, True)))" by (rule Cons.IH)
  finally show ?case by simp
qed

lemma toc_loop_first_page:
  "fst (toc_loop doc (toc, False)) = toc
   \<or> (\<exists>i<length doc. over_threshold (doc ! i) \<and> 10 \<le> length (doc ! i)
         \<and> prefix (toc @ doc ! i) (fst (toc_loop doc (toc, False)))
         \<and> list_all (\<lambda>pg. \<not> over_threshold pg \<or> length pg < 10) (take i doc))"
proof (induction doc)
  case Nil
  then show ?case by simp
next
  case (Cons pg pgs)
  show ?case
  proof (cases "over_threshold pg \<and> 10 \<le> length pg")
    case True
    then have "toc_loop (pg # pgs) (toc, False) = toc_loop pgs (toc @ pg, True)" by simp
    then have "prefix (toc @ (pg # pgs) ! 0) (fst (toc_loop (pg # pgs) (toc, False)))"
      using toc_loop_found_prefix[of "toc @ pg" pgs] by simp
    with True show ?thesis by (intro disjI2 exI[of _ 0]) simp
  next
    case False
    then have eq: "toc_loop (pg # pgs) (toc, False) = toc_loop pgs (toc, False)" by auto
    from Cons.IH show ?thesis
    proof
      assume "fst (toc_loop pgs (toc, False)) = toc"
      with eq show ?thesis by simp
    next
      assume "\<exists>i<length pgs. over_threshold (pgs ! i) \<and> 10 \<le> length (pgs ! i)
         \<and> prefix (toc @ pgs ! i) (fst (toc_loop pgs (toc, False)))
         \<and> list_all (\<lambda>pg. \<not> over_threshold pg \<or> length pg < 10) (take i pgs)"
      then obtain i where i: "i < length pgs" "over_threshold (pgs ! i)" "10 \<le> length (pgs ! i)"
         "prefix (toc @ pgs ! i) (fst (toc_loop pgs (toc, False)))"
         "list_all (\<lambda>pg. \<not> over_threshold pg \<or> length pg < 10) (take i pgs)" by blast
      with eq False show ?thesis by (intro disjI2 exI[of _ "Suc i"]) auto
    qed
  qed
qed

text \<open>
  Claim C9. While no page has been taken for the table of contents, a page that passes
  the threshold and has fewer than 10 lines leaves the state of the loop as it is, and
  the loop goes on with the next page. So the text the detector returns is empty or
  starts with the lines of a page of at least 10 lines: the first page that passes
  the threshold with that many lines.
\<close>

theorem identify_toc_first_page_not_small:
  "(over_threshold pg \<and> length pg < 10
      \<longrightarrow> toc_loop (pg # pgs) (toc_text, False) = toc_loop pgs (toc_text, False))
   \<and> (snd (identify_toc doc) = []
      \<or> (\<exists>i<length doc. over_threshold (doc ! i) \<and> 10 \<le> length (doc ! i)
            \<and> prefix (doc ! i) (snd (identify_toc doc))
            \<and> list_all (\<lambda>pg. \<not> over_threshold pg \<or> length pg < 10) (take i doc)))"
proof -
  have "snd (identify_toc doc) = fst (toc_loop doc ([], False))"
    by (simp add: identify_toc_def split: prod.splits)
  then show ?thesis using toc_loop_first_page[of doc "[]"] by simp
qed

text \<open>C9 on a page of four lines that all end in a page number, alone and in front of a
  page of ten such lines.\<close>

theorem identify_toc_first_page_not_small_witness:
  "over_threshold [''a 1'', ''b 2'', ''c 3'', ''d 4''] \<and> length [''a 1'', ''b 2'', ''c 3'', ''d 4''] < 10
   \<and> toc_loop [[''a 1'', ''b 2'', ''c 3'', ''d 4''], replicate 10 ''e 5''] ([], False)
       = toc_loop [replicate 10 ''e 5''] ([], False)
   \<and> snd (identify_toc [[''a 1'', ''b 2'', ''c 3'', ''d 4'']]) = []
   \<and> snd (identify_toc [[''a 1'', ''b 2'', ''c 3'', ''d 4''], replicate 10 ''e 5'']) = replicate 10 ''e 5''"
proof -
  have a: "over_threshold [''a 1'', ''b 2'', ''c 3'', ''d 4''] \<and> length [''a 1'', ''b 2'', ''c 3'', ''d 4''] < 10"
    by code_simp
  have b: "snd (identify_toc [[''a 1'', ''b 2'', ''c 3'', ''d 4'']]) = []" by code_simp
  have c: "snd (identify_toc [[''a 1'', ''b 2'', ''c 3'', ''d 4''], replicate 10 ''e 5'']) = replicate 10 ''e 5''"
    by code_simp
  show ?thesis
    using identify_toc_first_page_not_small[of "[''a 1'', ''b 2'', ''c 3'', ''d 4'']" "[replicate 10 ''e 5'']" "[]"
        "[[''a 1'', ''b 2'', ''c 3'', ''d 4''], replicate 10 ''e 5'']"]
      a b c by simp
qed








section \<open>The stitcher\<close>

text \<open>
  Claim C5. With a buffer \<open>(b0, b1, b2)\<close> and a line whose section token and page token
  are both numeric, one round of the loop joins the buffer with blanks into one string,
  strips the characters after its last digit, splits the result again into section, title
  and page and builds an entry from them; then it builds an entry from the line itself;
  both are appended, the repaired one first, and the buffer is empty afterwards. An
  exception of either construction leaves the loop.
\<close>

theorem stitch_step_backtrack:
  assumes "split_line line = (sec, ttl, pg)"
    and "check_numeric ut sec" and "check_numeric ut pg"
  shows "stitch_step ut (contents, Some (b0, b1, b2)) line =
     (case split_line (rev (dropWhile (\<lambda>c. \<not> is_digit c) (rev (b0 @ '' '' @ b1 @ '' '' @ b2)))) of
        (bsec, bttl, bpg) \<Rightarrow>
          (case Entry_init ut bsec bttl bpg of
             Inl e \<Rightarrow> Inl e
           | Inr x \<Rightarrow>
               (case Entry_init ut sec ttl pg of
                  Inl e \<Rightarrow> Inl e
                | Inr y \<Rightarrow> Inr (contents @ [x, y], None))))"
  using assms
  by (simp add: stitch_step_def clean_buffer_def strip_nonnumeric_def split: prod.splits sum.splits)

text \<open>C5 on the two lines quoted in the source: the header of the page is glued to the
  first line, and the second line shows that the first was complete.\<close>

theorem stitch_step_backtrack_witness:
  "split_line ''5.3 Tensile Stress Strain Curves 88'' = (''5.3'', ''Tensile Stress Strain Curves'', ''88'')
   \<and> check_numeric example_utils ''5.3'' \<and> check_numeric example_utils ''88''
   \<and> stitch_step example_utils ([], None) ''5.2.2 Displacement Measurement Devices 87vi Contents''
       = Inr ([], Some (''5.2.2'', ''Displacement Measurement Devices 87vi'', ''Contents''))
   \<and> stitch_step example_utils ([], Some (''5.2.2'', ''Displacement Measurement Devices 87vi'', ''Contents''))
        ''5.3 Tensile Stress Strain Curves 88''
       = Inr ([\<lparr>title = ''Displacement Measurement Devices'', page = 87, appendix = False,
                 chapter_no = 5, section_no = 2, subsection_no = 2\<rparr>,
               \<lparr>title = ''Tensile Stress Strain Curves'', page = 88, appendix = False,
                 chapter_no = 5, section_no = 3, subsection_no = 0\<rparr>], None)"
proof -
  have s: "split_line ''5.3 Tensile Stress Strain Curves 88'' = (''5.3'', ''Tensile Stress Strain Curves'', ''88'')"
    by code_simp
  have n1: "check_numeric example_utils ''5.3''" by code_simp
  have n2: "check_numeric example_utils ''88''" by code_simp
  have o: "stitch_step example_utils ([], None) ''5.2.2 Displacement Measurement Devices 87vi Contents''
       = Inr ([], Some (''5.2.2'', ''Displacement Measurement Devices 87vi'', ''Contents''))"
    by code_simp
  have r: "split_line (rev (dropWhile (\<lambda>c. \<not> is_digit c)
              (rev (''5.2.2'' @ '' '' @ ''Displacement Measurement Devices 87vi'' @ '' '' @ ''Contents''))))
           = (''5.2.2'', ''Displacement Measurement Devices'', ''87'')"
    by code_simp
  have e1: "Entry_init example_utils ''5.2.2'' ''Displacement Measurement Devices'' ''87''
       = Inr \<lparr>title = ''Displacement Measurement Devices'', page = 87, appendix = False,
                 chapter_no = 5, section_no = 2, subsection_no = 2\<rparr>"
    by code_simp
  have e2: "Entry_init example_utils ''5.3'' ''Tensile Stress Strain Curves'' ''88''
       = Inr \<lparr>title = ''Tensile Stress Strain Curves'', page = 88, appendix = False,
                 chapter_no = 5, section_no = 3, subsection_no = 0\<rparr>"
    by code_simp
  show ?thesis
    using stitch_step_backtrack[OF s n1 n2, of "[]" "''5.2.2''"
            "''Displacement Measurement Devices 87vi''" "''Contents''"]
    unfolding r using s n1 n2 o e1 e2 by simp
qed

lemma stitch_append:
  "stitch ut (xs @ ys) st = (case stitch ut xs st of Inl e \<Rightarrow> Inl e | Inr st' \<Rightarrow> stitch ut ys st')"
  by (induction xs arbitrary: st) (auto split: sum.splits)

lemma stitch_step_continues:
  "continues_entry ut m \<Longrightarrow>
   \<exists>t p. stitch_step ut (cs, Some (b0, b1, b2)) m = Inr (cs, Some (b0, t, p))"
  by (cases "split_line m") (simp add: continues_entry_def stitch_step_def)

lemma stitch_continues:
  "list_all (continues_entry ut) ms \<Longrightarrow>
   \<exists>t p. stitch ut ms (cs, Some (b0, b1, b2)) = Inr (cs, Some (b0, t, p))"
proof (induction ms arbitrary: b1 b2)
  case Nil
  then show ?case by simp
next
  case (Cons m ms)
  from Cons.prems have "continues_entry ut m" by simp
  from stitch_step_continues[OF this, of cs b0 b1 b2]
  obtain t p where 1: "stitch_step ut (cs, Some (b0, b1, b2)) m = Inr (cs, Some (b0, t, p))" by blast
  from Cons.prems have "list_all (continues_entry ut) ms" by simp
  from Cons.IH[OF this, of t p] 1 show ?case by simp
qed

lemma stitch_opens:
  "opens_entry ut l \<Longrightarrow> \<exists>b0 b1 b2. stitch_step ut (cs, None) l = Inr (cs, Some (b0, b1, b2))"
  by (cases "split_line l") (simp add: opens_entry_def stitch_step_def)

text \<open>
  Claim C10. When the loop of \<open>parse_toc\<close> ends with a buffer that is not empty, the
  value returned is computed from the entries alone: the buffer is dropped, and nothing
  but the first line is printed. In particular, when the lines \<open>ks\<close> leave the buffer
  empty and are followed by a line that opens a multi-line entry and by lines that
  continue it, the loop ends with the entries of \<open>ks\<close> and a buffer, and \<open>parse_toc\<close>
  prints and returns what it prints and returns for \<open>ks\<close> alone.
\<close>

theorem parse_toc_drops_buffer:
  "(stitch ut ls ([], None) = Inr (cs, Some b) \<longrightarrow>
      parse_toc ut doc ls =
        ([''Parsing table of contents...''],
         (case offset_first_page doc cs of Inl e \<Rightarrow> Inl e | Inr (cs', r) \<Rightarrow> Inr r)))
   \<and> (stitch ut ks ([], None) = Inr (ds, None) \<and> opens_entry ut l \<and> list_all (continues_entry ut) ms \<longrightarrow>
      (\<exists>b'. stitch ut (ks @ l # ms) ([], None) = Inr (ds, Some b'))
      \<and> parse_toc ut doc (ks @ l # ms) = parse_toc ut doc ks)"
proof -
  have 1: "stitch ut ls ([], None) = Inr (cs, Some b) \<longrightarrow>
      parse_toc ut doc ls =
        ([''Parsing table of contents...''],
         (case offset_first_page doc cs of Inl e \<Rightarrow> Inl e | Inr (cs', r) \<Rightarrow> Inr r))"
    by (simp add: parse_toc_def)
  have 2: "(\<exists>b'. stitch ut (ks @ l # ms) ([], None) = Inr (ds, Some b'))
      \<and> parse_toc ut doc (ks @ l # ms) = parse_toc ut doc ks"
    if a: "stitch ut ks ([], None) = Inr (ds, None)" and o: "opens_entry ut l"
      and c: "list_all (continues_entry ut) ms"
  proof -
    from stitch_opens[OF o, of ds] obtain b0 b1 b2
      where b0: "stitch_step ut (ds, None) l = Inr (ds, Some (b0, b1, b2))" by blast
    from stitch_continues[OF c, of ds b0 b1 b2] obtain t p
      where b': "stitch ut ms (ds, Some (b0, b1, b2)) = Inr (ds, Some (b0, t, p))" by blast
    have s: "stitch ut (ks @ l # ms) ([], None) = Inr (ds, Some (b0, t, p))"
      using a b0 b' by (simp add: stitch_append)
    with a show ?thesis by (simp add: parse_toc_def)
  qed
  from 1 2 show ?thesis by blast
qed

text \<open>C10 on three lines: a complete entry, a line that opens an entry, a line that
  continues it.\<close>

theorem parse_toc_drops_buffer_witness:
  "stitch example_utils [''1 Introduction 1''] ([], None)
     = Inr ([\<lparr>title = ''Introduction'', page = 1, appendix = False,
               chapter_no = 1, section_no = 0, subsection_no = 0\<rparr>], None)
   \<and> opens_entry example_utils ''2.1 Methods continued''
   \<and> list_all (continues_entry example_utils) [''from the previous'']
   \<and> stitch example_utils [''1 Introduction 1'', ''2.1 Methods continued'', ''from the previous''] ([], None)
     = Inr ([\<lparr>title = ''Introduction'', page = 1, appendix = False,
               chapter_no = 1, section_no = 0, subsection_no = 0\<rparr>],
            Some (''2.1'', ''Methods continued from the'', ''previous''))
   \<and> parse_toc example_utils [[''Cover''], [''Introduction'']]
        [''1 Introduction 1'', ''2.1 Methods continued'', ''from the previous'']
     = ([''Parsing table of contents...''],
        Inr (Some [\<lparr>title = ''Introduction'', page = 1, appendix = False,
               chapter_no = 1, section_no = 0, subsection_no = 0\<rparr>]))
   \<and> parse_toc example_utils [[''Cover''], [''Introduction'']] [''1 Introduction 1'']
     = ([''Parsing table of contents...''],
        Inr (Some [\<lparr>title = ''Introduction'', page = 1, appendix = False,
               chapter_no = 1, section_no = 0, subsection_no = 0\<rparr>]))"
proof -
  let ?e = "\<lparr>title = ''Introduction'', page = 1, appendix = False,
               chapter_no = 1, section_no = 0, subsection_no = 0\<rparr>"
  have a: "stitch example_utils [''1 Introduction 1''] ([], None) = Inr ([?e], None)" by code_simp
  have o: "opens_entry example_utils ''2.1 Methods continued''" by code_simp
  have c: "list_all (continues_entry example_utils) [''from the previous'']" by code_simp
  have s: "stitch example_utils [''1 Introduction 1'', ''2.1 Methods continued'', ''from the previous''] ([], None)
     = Inr ([?e], Some (''2.1'', ''Methods continued from the'', ''previous''))" by code_simp
  have f: "offset_first_page [[''Cover''], [''Introduction'']] [?e] = Inr ([?e], Some [?e])"
    by code_simp
  have p: "parse_toc example_utils [[''Cover''], [''Introduction'']] [''1 Introduction 1'']
     = ([''Parsing table of contents...''], Inr (Some [?e]))"
    using a f by (simp add: parse_toc_def)
  show ?thesis
    using parse_toc_drops_buffer[of example_utils
        "[''1 Introduction 1'', ''2.1 Methods continued'', ''from the previous'']" "[?e]"
        "(''2.1'', ''Methods continued from the'', ''previous'')" "[[''Cover''], [''Introduction'']]"
        "[''1 Introduction 1'']" "[?e]" "''2.1 Methods continued''" "[''from the previous'']"]
      a o c s f p
    by simp
qed

section \<open>The hierarchy\<close>

lemma length_filter_key_unique:
  "distinct (map f xs) \<Longrightarrow> k \<in> f ` set xs \<Longrightarrow> length (filter (\<lambda>x. f x = k) xs) = 1"
proof (induction xs)
  case Nil
  then show ?case by simp
next
  case (Cons x xs)
  show ?case
  proof (cases "f x = k")
    case True
    with Cons.prems have "k \<notin> f ` set xs" by auto
    then have "filter (\<lambda>x. f x = k) xs = []" by (auto simp: filter_empty_conv)
    with True show ?thesis by simp
  next
    case False
    with Cons show ?thesis by auto
  qed
qed

lemma in_section_group:
  "e \<in> set (section_group contents ch) \<longleftrightarrow>
     e \<in> set contents \<and> chapter_no e = chapter_no ch \<and> is_section_level e"
  by (auto simp: section_group_def is_section_level_def)

lemma in_subsection_group:
  "e \<in> set (subsection_group contents ch sec) \<longleftrightarrow>
     e \<in> set contents \<and> chapter_no e = chapter_no ch \<and> section_no e = section_no sec
     \<and> is_subsection_level e"
  by (auto simp: subsection_group_def is_subsection_level_def)

lemma in_chapter_level:
  "e \<in> set (chapter_level contents) \<longleftrightarrow> e \<in> set contents \<and> is_chapter_level e"
  by (simp add: chapter_level_def)

lemma subsection_level_eq:
  "subsection_level contents =
     map (\<lambda>ch. map (subsection_group contents ch) (section_group contents ch)) (chapter_level contents)"
proof -
  have f: "filter (\<lambda>sec. chapter_no sec = chapter_no ch) (section_group contents ch) = section_group contents ch" for ch
    by (auto simp: section_group_def intro: filter_cong)
  have "subsection_level contents =
      map (\<lambda>i. map (subsection_group contents (chapter_level contents ! i))
                 (filter (\<lambda>sec. chapter_no sec = chapter_no (chapter_level contents ! i))
                    (section_level contents ! i)))
          [0..<length (chapter_level contents)]"
    unfolding subsection_level_def enumerate_eq_zip
    by (rule nth_equalityI) simp_all
  also have "\<dots> = map (\<lambda>i. map (subsection_group contents (chapter_level contents ! i))
                 (section_group contents (chapter_level contents ! i)))
          [0..<length (chapter_level contents)]"
    by (rule map_cong) (simp_all add: section_level_def f)
  also have "\<dots> = map (\<lambda>ch. map (subsection_group contents ch) (section_group contents ch)) (chapter_level contents)"
    by (rule nth_equalityI) simp_all
  finally show ?thesis .
qed

lemma length_filter_concat_map:
  "length (filter P (concat (map F xs))) = sum_list (map (\<lambda>x. length (filter P (F x))) xs)"
  by (induction xs) simp_all

lemma section_groups_with:
  "length (filter (\<lambda>g. e \<in> set g) (section_level contents)) =
     (if e \<in> set contents \<and> is_section_level e
      then length (filter (\<lambda>ch. chapter_no ch = chapter_no e) (chapter_level contents)) else 0)"
proof -
  have "filter (\<lambda>g. e \<in> set g) (section_level contents) =
        map (section_group contents) (filter (\<lambda>ch. e \<in> set (section_group contents ch)) (chapter_level contents))"
    by (simp add: section_level_def filter_map comp_def)
  then show ?thesis
    by (auto simp: in_section_group filter_empty_conv intro!: arg_cong[where f=length] filter_cong)
qed


lemma sum_list_const_if:
  "sum_list (map (\<lambda>x. if Q x then (c::nat) else 0) xs) = length (filter Q xs) * c"
  by (induction xs) simp_all

lemma subsection_groups_of_chapter:
  "length (filter (\<lambda>g. e \<in> set g) (map (subsection_group contents ch) (section_group contents ch))) =
     (if chapter_no ch = chapter_no e
      then (if e \<in> set contents \<and> is_subsection_level e
            then length (filter (\<lambda>s. (chapter_no s, section_no s) = (chapter_no e, section_no e))
                           (filter is_section_level contents))
            else 0)
      else 0)"
proof -
  have "length (filter (\<lambda>g. e \<in> set g) (map (subsection_group contents ch) (section_group contents ch)))
      = length (filter (\<lambda>sec. e \<in> set (subsection_group contents ch sec)) (section_group contents ch))"
    by (simp add: filter_map comp_def)
  also have "\<dots> = length (filter (\<lambda>s. (e \<in> set contents \<and> chapter_no e = chapter_no ch
                          \<and> section_no e = section_no s \<and> is_subsection_level e)
                        \<and> chapter_no s = chapter_no ch \<and> is_section_level s) contents)"
    by (auto simp: in_subsection_group section_group_def is_section_level_def
             intro!: arg_cong[where f=length] filter_cong)
  also have "\<dots> = (if chapter_no ch = chapter_no e
      then (if e \<in> set contents \<and> is_subsection_level e
            then length (filter (\<lambda>s. (chapter_no s, section_no s) = (chapter_no e, section_no e))
                           (filter is_section_level contents))
            else 0)
      else 0)"
    by (auto intro!: arg_cong[where f=length] filter_cong)
  finally show ?thesis .
qed

lemma subsection_groups_with:
  "length (filter (\<lambda>g. e \<in> set g) (concat (subsection_level contents))) =
     (if e \<in> set contents \<and> is_subsection_level e
      then length (filter (\<lambda>ch. chapter_no ch = chapter_no e) (chapter_level contents))
           * length (filter (\<lambda>s. (chapter_no s, section_no s) = (chapter_no e, section_no e))
                        (filter is_section_level contents))
      else 0)"
  unfolding subsection_level_eq length_filter_concat_map subsection_groups_of_chapter
  by (simp add: sum_list_const_if)

lemma levels_exclusive:
  "\<not> (is_chapter_level e \<and> is_section_level e)" "\<not> (is_chapter_level e \<and> is_subsection_level e)"
  "\<not> (is_section_level e \<and> is_subsection_level e)"
  "appendix e \<Longrightarrow> \<not> is_chapter_level e \<and> \<not> is_section_level e \<and> \<not> is_subsection_level e"
  "\<not> appendix e \<Longrightarrow> is_chapter_level e \<or> is_section_level e \<or> is_subsection_level e"
  by (auto simp: is_chapter_level_def is_section_level_def is_subsection_level_def)

text \<open>
  Claim C6, as amended. Let the chapter-level entries of the list have pairwise
  different chapter numbers and its section-level entries pairwise different pairs of
  chapter and section number, let every section-level entry have a chapter-level entry
  of its chapter, and every subsection-level entry a section-level entry of its chapter
  and section. Then every entry of the list that is no appendix entry occurs in exactly
  one group of the hierarchy, and an appendix entry occurs in none.
\<close>

theorem hierarchy_exactly_one_group:
  assumes "distinct (map chapter_no (chapter_level contents))"
    and "distinct (map (\<lambda>s. (chapter_no s, section_no s)) (filter is_section_level contents))"
    and "list_all (\<lambda>s. is_section_level s \<longrightarrow>
            chapter_no s \<in> chapter_no ` set (chapter_level contents)) contents"
    and "list_all (\<lambda>u. is_subsection_level u \<longrightarrow>
            (chapter_no u, section_no u)
              \<in> (\<lambda>s. (chapter_no s, section_no s)) ` set (filter is_section_level contents)) contents"
    and "e \<in> set contents"
  shows "group_count contents e = (if appendix e then 0 else 1)"
proof -
  let ?C = "length (filter (\<lambda>ch. chapter_no ch = chapter_no e) (chapter_level contents))"
  let ?S = "length (filter (\<lambda>s. (chapter_no s, section_no s) = (chapter_no e, section_no e))
                        (filter is_section_level contents))"
  have gc: "group_count contents e =
      (if is_chapter_level e then 1 else 0) + (if is_section_level e then ?C else 0)
      + (if is_subsection_level e then ?C * ?S else 0)"
    using assms(5)
    by (simp add: group_count_def in_chapter_level section_groups_with subsection_groups_with)
  have sec: "?C = 1" if "is_section_level e"
    using assms(1,3,5) that
    by (intro length_filter_key_unique) (auto simp: list_all_iff)
  have sub: "?C = 1 \<and> ?S = 1" if u: "is_subsection_level e"
  proof -
    from assms(4,5) u have m: "(chapter_no e, section_no e)
              \<in> (\<lambda>s. (chapter_no s, section_no s)) ` set (filter is_section_level contents)"
      by (auto simp: list_all_iff)
    then have S: "?S = 1" using assms(2) by (intro length_filter_key_unique)
    from m obtain s where s: "s \<in> set contents" "is_section_level s" "chapter_no s = chapter_no e"
      by auto
    from assms(3) s(1,2) have "chapter_no s \<in> chapter_no ` set (chapter_level contents)"
      unfolding list_all_iff by blast
    with s(3) have "chapter_no e \<in> chapter_no ` set (chapter_level contents)" by simp
    then have "?C = 1" using assms(1) by (intro length_filter_key_unique)
    with S show ?thesis by simp
  qed
  show ?thesis
  proof (cases "appendix e")
    case True
    with levels_exclusive(4)[of e] gc show ?thesis by simp
  next
    case False
    from levels_exclusive(5)[OF False] show ?thesis
    proof (elim disjE)
      assume "is_chapter_level e"
      with levels_exclusive(1,2)[of e] gc False show ?thesis by auto
    next
      assume a: "is_section_level e"
      with levels_exclusive(1,3)[of e] gc False sec show ?thesis by auto
    next
      assume a: "is_subsection_level e"
      with levels_exclusive(2,3)[of e] gc False sub show ?thesis by auto
    qed
  qed
qed


text \<open>The amended C6 on a chapter, its section, its subsection and an appendix entry.\<close>

theorem hierarchy_exactly_one_group_witness:
  "add_bookmarks_to_pdf
     [\<lparr>title = ''Introduction'', page = 1, appendix = False, chapter_no = 1, section_no = 0, subsection_no = 0\<rparr>,
      \<lparr>title = ''Background'', page = 3, appendix = False, chapter_no = 1, section_no = 1, subsection_no = 0\<rparr>,
      \<lparr>title = ''Prior Work'', page = 5, appendix = False, chapter_no = 1, section_no = 1, subsection_no = 1\<rparr>,
      \<lparr>title = ''Tables'', page = 90, appendix = True, chapter_no = 1, section_no = 0, subsection_no = 0\<rparr>]
   = ([\<lparr>title = ''Introduction'', page = 1, appendix = False, chapter_no = 1, section_no = 0, subsection_no = 0\<rparr>], [[\<lparr>title = ''Background'', page = 3, appendix = False, chapter_no = 1, section_no = 1, subsection_no = 0\<rparr>]], [[[\<lparr>title = ''Prior Work'', page = 5, appendix = False, chapter_no = 1, section_no = 1, subsection_no = 1\<rparr>]]])
   \<and> group_count
     [\<lparr>title = ''Introduction'', page = 1, appendix = False, chapter_no = 1, section_no = 0, subsection_no = 0\<rparr>,
      \<lparr>title = ''Background'', page = 3, appendix = False, chapter_no = 1, section_no = 1, subsection_no = 0\<rparr>,
      \<lparr>title = ''Prior Work'', page = 5, appendix = False, chapter_no = 1, section_no = 1, subsection_no = 1\<rparr>,
      \<lparr>title = ''Tables'', page = 90, appendix = True, chapter_no = 1, section_no = 0, subsection_no = 0\<rparr>]
     \<lparr>title = ''Prior Work'', page = 5, appendix = False, chapter_no = 1, section_no = 1, subsection_no = 1\<rparr> = 1
   \<and> group_count
     [\<lparr>title = ''Introduction'', page = 1, appendix = False, chapter_no = 1, section_no = 0, subsection_no = 0\<rparr>,
      \<lparr>title = ''Background'', page = 3, appendix = False, chapter_no = 1, section_no = 1, subsection_no = 0\<rparr>,
      \<lparr>title = ''Prior Work'', page = 5, appendix = False, chapter_no = 1, section_no = 1, subsection_no = 1\<rparr>,
      \<lparr>title = ''Tables'', page = 90, appendix = True, chapter_no = 1, section_no = 0, subsection_no = 0\<rparr>]
     \<lparr>title = ''Background'', page = 3, appendix = False, chapter_no = 1, section_no = 1, subsection_no = 0\<rparr> = 1
   \<and> group_count
     [\<lparr>title = ''Introduction'', page = 1, appendix = False, chapter_no = 1, section_no = 0, subsection_no = 0\<rparr>,
      \<lparr>title = ''Background'', page = 3, appendix = False, chapter_no = 1, section_no = 1, subsection_no = 0\<rparr>,
      \<lparr>title = ''Prior Work'', page = 5, appendix = False, chapter_no = 1, section_no = 1, subsection_no = 1\<rparr>,
      \<lparr>title = ''Tables'', page = 90, appendix = True, chapter_no = 1, section_no = 0, subsection_no = 0\<rparr>]
     \<lparr>title = ''Tables'', page = 90, appendix = True, chapter_no = 1, section_no = 0, subsection_no = 0\<rparr> = 0"
proof -
  let ?l = "[\<lparr>title = ''Introduction'', page = 1, appendix = False, chapter_no = 1, section_no = 0, subsection_no = 0\<rparr>,
      \<lparr>title = ''Background'', page = 3, appendix = False, chapter_no = 1, section_no = 1, subsection_no = 0\<rparr>,
      \<lparr>title = ''Prior Work'', page = 5, appendix = False, chapter_no = 1, section_no = 1, subsection_no = 1\<rparr>,
      \<lparr>title = ''Tables'', page = 90, appendix = True, chapter_no = 1, section_no = 0, subsection_no = 0\<rparr>]"
  have 1: "distinct (map chapter_no (chapter_level ?l))" by code_simp
  have 2: "distinct (map (\<lambda>s. (chapter_no s, section_no s)) (filter is_section_level ?l))" by code_simp
  have 3: "list_all (\<lambda>s. is_section_level s \<longrightarrow>
            chapter_no s \<in> chapter_no ` set (chapter_level ?l)) ?l" by code_simp
  have 4: "list_all (\<lambda>u. is_subsection_level u \<longrightarrow>
            (chapter_no u, section_no u)
              \<in> (\<lambda>s. (chapter_no s, section_no s)) ` set (filter is_section_level ?l)) ?l"
    by code_simp
  have a: "add_bookmarks_to_pdf ?l = ([\<lparr>title = ''Introduction'', page = 1, appendix = False, chapter_no = 1, section_no = 0, subsection_no = 0\<rparr>], [[\<lparr>title = ''Background'', page = 3, appendix = False, chapter_no = 1, section_no = 1, subsection_no = 0\<rparr>]], [[[\<lparr>title = ''Prior Work'', page = 5, appendix = False, chapter_no = 1, section_no = 1, subsection_no = 1\<rparr>]]])" by code_simp
  show ?thesis
    using hierarchy_exactly_one_group[OF 1 2 3 4, of "\<lparr>title = ''Prior Work'', page = 5, appendix = False, chapter_no = 1, section_no = 1, subsection_no = 1\<rparr>"]
          hierarchy_exactly_one_group[OF 1 2 3 4, of "\<lparr>title = ''Background'', page = 3, appendix = False, chapter_no = 1, section_no = 1, subsection_no = 0\<rparr>"]
          hierarchy_exactly_one_group[OF 1 2 3 4, of "\<lparr>title = ''Tables'', page = 90, appendix = True, chapter_no = 1, section_no = 0, subsection_no = 0\<rparr>"] a
    by simp
qed

text \<open>
  Claim C6 as it is written fails in both of its parts. A section-level entry without a
  chapter-level entry of its chapter occurs in no group, although it is no appendix
  entry; and when two chapter-level entries carry the same chapter number, the section
  of that chapter occurs in two section-level groups.
\<close>

theorem hierarchy_group_counterexample:
  "\<not> appendix \<lparr>title = ''Methods'', page = 12, appendix = False, chapter_no = 2, section_no = 1, subsection_no = 0\<rparr>
   \<and> add_bookmarks_to_pdf [\<lparr>title = ''Methods'', page = 12, appendix = False, chapter_no = 2, section_no = 1, subsection_no = 0\<rparr>] = ([], [], [])
   \<and> group_count [\<lparr>title = ''Methods'', page = 12, appendix = False, chapter_no = 2, section_no = 1, subsection_no = 0\<rparr>] \<lparr>title = ''Methods'', page = 12, appendix = False, chapter_no = 2, section_no = 1, subsection_no = 0\<rparr> = 0
   \<and> section_level [\<lparr>title = ''Introduction'', page = 1, appendix = False, chapter_no = 1, section_no = 0, subsection_no = 0\<rparr>, \<lparr>title = ''Preface'', page = 2, appendix = False, chapter_no = 1, section_no = 0, subsection_no = 0\<rparr>, \<lparr>title = ''Background'', page = 3, appendix = False, chapter_no = 1, section_no = 1, subsection_no = 0\<rparr>] = [[\<lparr>title = ''Background'', page = 3, appendix = False, chapter_no = 1, section_no = 1, subsection_no = 0\<rparr>], [\<lparr>title = ''Background'', page = 3, appendix = False, chapter_no = 1, section_no = 1, subsection_no = 0\<rparr>]]
   \<and> group_count [\<lparr>title = ''Introduction'', page = 1, appendix = False, chapter_no = 1, section_no = 0, subsection_no = 0\<rparr>, \<lparr>title = ''Preface'', page = 2, appendix = False, chapter_no = 1, section_no = 0, subsection_no = 0\<rparr>, \<lparr>title = ''Background'', page = 3, appendix = False, chapter_no = 1, section_no = 1, subsection_no = 0\<rparr>] \<lparr>title = ''Background'', page = 3, appendix = False, chapter_no = 1, section_no = 1, subsection_no = 0\<rparr> = 2"
proof -
  have a: "add_bookmarks_to_pdf [\<lparr>title = ''Methods'', page = 12, appendix = False, chapter_no = 2, section_no = 1, subsection_no = 0\<rparr>] = ([], [], [])" by code_simp
  have b: "group_count [\<lparr>title = ''Methods'', page = 12, appendix = False, chapter_no = 2, section_no = 1, subsection_no = 0\<rparr>] \<lparr>title = ''Methods'', page = 12, appendix = False, chapter_no = 2, section_no = 1, subsection_no = 0\<rparr> = 0" by code_simp
  have c: "section_level [\<lparr>title = ''Introduction'', page = 1, appendix = False, chapter_no = 1, section_no = 0, subsection_no = 0\<rparr>, \<lparr>title = ''Preface'', page = 2, appendix = False, chapter_no = 1, section_no = 0, subsection_no = 0\<rparr>, \<lparr>title = ''Background'', page = 3, appendix = False, chapter_no = 1, section_no = 1, subsection_no = 0\<rparr>] = [[\<lparr>title = ''Background'', page = 3, appendix = False, chapter_no = 1, section_no = 1, subsection_no = 0\<rparr>], [\<lparr>title = ''Background'', page = 3, appendix = False, chapter_no = 1, section_no = 1, subsection_no = 0\<rparr>]]" by code_simp
  have d: "group_count [\<lparr>title = ''Introduction'', page = 1, appendix = False, chapter_no = 1, section_no = 0, subsection_no = 0\<rparr>, \<lparr>title = ''Preface'', page = 2, appendix = False, chapter_no = 1, section_no = 0, subsection_no = 0\<rparr>, \<lparr>title = ''Background'', page = 3, appendix = False, chapter_no = 1, section_no = 1, subsection_no = 0\<rparr>] \<lparr>title = ''Background'', page = 3, appendix = False, chapter_no = 1, section_no = 1, subsection_no = 0\<rparr> = 2" by code_simp
  from a b c d show ?thesis by simp
qed

section \<open>Labels\<close>

lemma digit_char_props: "d < 10 \<Longrightarrow> is_digit (digit_char d) \<and> digit_val (digit_char d) = d"
proof -
  assume d: "d < 10"
  have "list_all (\<lambda>d. is_digit (digit_char d) \<and> digit_val (digit_char d) = d) [0..<10]"
    by code_simp
  then show ?thesis using d unfolding list_all_iff by simp
qed

lemma str_nat_digits: "digit_string (str_nat n)"
proof (induction n rule: str_nat.induct)
  case (1 n)
  show ?case
  proof (cases "n < 10")
    case True
    then show ?thesis by (simp add: str_nat.simps[of n] digit_string_def digit_char_props)
  next
    case False
    with 1 show ?thesis
      by (simp add: str_nat.simps[of n] digit_string_def digit_char_props)
  qed
qed

lemma dec_value_snoc: "dec_value (xs @ [c]) = 10 * dec_value xs + digit_val c"
  by (simp add: dec_value_def)

lemma dec_value_str_nat: "dec_value (str_nat n) = n"
proof (induction n rule: str_nat.induct)
  case (1 n)
  show ?case
  proof (cases "n < 10")
    case True
    then show ?thesis by (simp add: str_nat.simps[of n] dec_value_def digit_char_props)
  next
    case False
    with 1 show ?thesis
      by (simp add: str_nat.simps[of n] dec_value_snoc digit_char_props)
  qed
qed

lemma py_nat_digit_string: "digit_string s \<Longrightarrow> py_nat s = Some (dec_value s)"
  using int_body_digits[of s 0]
  by (cases s) (auto simp: py_nat_def dec_value_def digit_string_def)

lemma py_int_str_int: "py_int (str_int i) = Inr i"
proof (cases "i < 0")
  case False
  then show ?thesis
    using py_int_digit_string[OF str_nat_digits, of "nat i"] by (simp add: str_int_def dec_value_str_nat)
next
  case True
  let ?d = "str_nat (nat (- i))"
  have d: "digit_string ?d" by (rule str_nat_digits)
  then have ne: "?d \<noteq> []" and la: "is_digit (last ?d)"
    using digit_string_hd_last[of ?d] by (auto simp: digit_string_def)
  have "\<not> is_space (CHR ''-'')" by (simp add: is_space_def)
  moreover have "\<not> is_space (last (CHR ''-'' # ?d))" using ne la by (simp add: is_digit_not_space)
  ultimately have "strip (CHR ''-'' # ?d) = CHR ''-'' # ?d" by (intro strip_id) simp_all
  then show ?thesis using True py_nat_digit_string[OF d]
    by (simp add: str_int_def py_int_def dec_value_str_nat)
qed

lemma str_int_chars: "c \<in> set (str_int i) \<Longrightarrow> is_digit c \<or> c = CHR ''-''"
  using str_nat_digits by (auto simp: str_int_def digit_string_def list_all_iff split: if_splits)

lemma str_int_no_space: "CHR '' '' \<notin> set (str_int i)"
  using str_int_chars[of "CHR '' ''" i] by (auto simp: is_digit_def)

lemma str_int_no_dot: "CHR ''.'' \<notin> set (str_int i)"
  using str_int_chars[of "CHR ''.''" i] by (auto simp: is_digit_def)

lemma str_int_last: "str_int i \<noteq> [] \<and> is_digit (last (str_int i))"
  using str_nat_digits digit_string_hd_last by (auto simp: str_int_def digit_string_def)

lemma str_int_hd: "0 \<le> i \<Longrightarrow> is_digit (hd (str_int i))"
  using str_nat_digits digit_string_hd_last by (auto simp: str_int_def)

lemma takeWhile_dropWhile_sep:
  "sep \<notin> set a \<Longrightarrow> takeWhile (\<lambda>c. c \<noteq> sep) (a @ sep # b) = a
     \<and> dropWhile (\<lambda>c. c \<noteq> sep) (a @ sep # b) = sep # b"
  by (induction a) auto

lemma str_partition_first: "sep \<notin> set a \<Longrightarrow> str_partition sep (a @ sep # b) = (a, [sep], b)"
  by (simp add: str_partition_def takeWhile_dropWhile_sep)

lemma str_rpartition_last: "sep \<notin> set b \<Longrightarrow> str_rpartition sep (a @ sep # b) = (a, [sep], b)"
  using takeWhile_dropWhile_sep[of sep "rev b" "rev a"] by (simp add: str_rpartition_def)

lemma lower_not_appendix: "s \<noteq> [] \<Longrightarrow> is_digit (hd s) \<Longrightarrow> lower s \<noteq> ''appendix''"
  by (cases s) (auto simp: lower_def lower_char_def is_digit_def Let_def)

lemma split_line_three:
  assumes "CHR '' '' \<notin> set a" and "CHR '' '' \<notin> set b" and "lower a \<noteq> ''appendix''"
  shows "split_line (a @ CHR '' '' # m @ CHR '' '' # b) = (a, m, b)"
  using assms by (simp add: split_line_def str_partition_first str_rpartition_last)

lemma int_body_stops:
  "list_all is_digit ds \<Longrightarrow> \<not> is_digit c \<Longrightarrow> c \<noteq> CHR ''_'' \<Longrightarrow> int_body acc (ds @ c # r) = None"
  by (induction ds arbitrary: acc) auto

lemma py_nat_stops:
  "digit_string ds \<Longrightarrow> \<not> is_digit c \<Longrightarrow> c \<noteq> CHR ''_'' \<Longrightarrow> py_nat (ds @ [c]) = None"
  using int_body_stops[of ds c 0 "[]"]
  by (cases ds) (auto simp: py_nat_def digit_string_def)

lemma py_int_page_token: "py_int (str_int i @ '')'') = Inl ValueError"
proof -
  have paren: "\<not> is_digit (CHR '')'')" "CHR '')'' \<noteq> CHR ''_''" "\<not> is_space (CHR '')'')"
    by (simp_all add: is_digit_def is_space_def)
  have ne: "str_int i \<noteq> []" using str_int_last by simp
  have "hd (str_int i) \<in> set (str_int i)" using ne by simp
  then have "\<not> is_space (hd (str_int i))"
    using str_int_chars[of "hd (str_int i)" i] by (auto simp: is_space_def dest: is_digit_not_space)
  then have st: "strip (str_int i @ '')'') = str_int i @ '')''"
    using ne paren by (intro strip_id) (simp_all add: hd_append)
  show ?thesis
  proof (cases "i < 0")
    case True
    then show ?thesis
      using py_nat_stops[OF str_nat_digits paren(1,2), of "nat (- i)"] st[unfolded str_int_def]
      by (simp add: py_int_def str_int_def)
  next
    case False
    obtain c cs where c: "str_nat (nat i) = c # cs" using str_nat_digits[of "nat i"]
      by (cases "str_nat (nat i)") (auto simp: digit_string_def)
    with str_nat_digits[of "nat i"] have "is_digit c" by (simp add: digit_string_def)
    then have "c \<noteq> CHR ''-''" "c \<noteq> CHR ''+''" by (auto simp: is_digit_def)
    then show ?thesis
      using False c py_nat_stops[OF str_nat_digits paren(1,2), of "nat i"] st[unfolded str_int_def]
      by (simp add: py_int_def str_int_def)
  qed
qed

lemma strip_page_token: "strip_nonnumeric (str_int i @ '')'') False True = str_int i"
proof -
  have "\<not> is_digit (CHR '')'')" by (simp add: is_digit_def)
  moreover have "dropWhile (\<lambda>c. \<not> is_digit c) (rev (str_int i)) = rev (str_int i)"
    using str_int_last[of i] by (intro dropWhile_hd_id) (simp_all add: hd_rev)
  ultimately show ?thesis by (simp add: strip_nonnumeric_def)
qed

lemma section_token_numbers:
  assumes "0 \<le> c"
  shows "map_err py_int (split_on (CHR ''.'') (strip_nonnumeric (str_int c @ ''.'' @ str_int s) True True))
           = Inr [c, s]"
    and "map_err py_int (split_on (CHR ''.'')
            (strip_nonnumeric (str_int c @ ''.'' @ str_int s @ ''.'' @ str_int u) True True))
           = Inr [c, s, u]"
proof -
  have ne: "str_int c \<noteq> []" "str_int s \<noteq> []" "str_int u \<noteq> []" using str_int_last by simp_all
  have h: "is_digit (hd (str_int c))" using assms by (rule str_int_hd)
  have 2: "strip_nonnumeric (str_int c @ ''.'' @ str_int s) True True = str_int c @ ''.'' @ str_int s"
    using ne h str_int_last[of s] by (intro strip_nonnumeric_id) (simp_all add: hd_append)
  have 3: "strip_nonnumeric (str_int c @ ''.'' @ str_int s @ ''.'' @ str_int u) True True
            = str_int c @ ''.'' @ str_int s @ ''.'' @ str_int u"
    using ne h str_int_last[of u] by (intro strip_nonnumeric_id) (simp_all add: hd_append)
  show "map_err py_int (split_on (CHR ''.'') (strip_nonnumeric (str_int c @ ''.'' @ str_int s) True True))
           = Inr [c, s]"
    unfolding 2 by (simp add: split_on_append split_on_nosep str_int_no_dot py_int_str_int)
  show "map_err py_int (split_on (CHR ''.'')
            (strip_nonnumeric (str_int c @ ''.'' @ str_int s @ ''.'' @ str_int u) True True))
           = Inr [c, s, u]"
    unfolding 3 by (simp add: split_on_append split_on_nosep str_int_no_dot py_int_str_int)
qed

lemma Entry_str_split:
  assumes "\<not> appendix e" and "0 \<le> chapter_no e" and "section_no e \<noteq> 0 \<or> subsection_no e \<noteq> 0"
  shows "split_line (Entry_str e) =
           ((if subsection_no e \<noteq> 0
             then str_int (chapter_no e) @ ''.'' @ str_int (section_no e) @ ''.'' @ str_int (subsection_no e)
             else str_int (chapter_no e) @ ''.'' @ str_int (section_no e)),
            ''- '' @ title e @ '' (page'', str_int (page e) @ '')'')"
proof -
  let ?c = "str_int (chapter_no e)" and ?s = "str_int (section_no e)" and ?u = "str_int (subsection_no e)"
  define tok where "tok = (if subsection_no e \<noteq> 0 then ?c @ ''.'' @ ?s @ ''.'' @ ?u else ?c @ ''.'' @ ?s)"
  define m where "m = ''- '' @ title e @ '' (page''"
  define b where "b = str_int (page e) @ '')''"
  have sp: "CHR '' '' \<notin> set tok" by (simp add: tok_def str_int_no_space)
  have pg: "CHR '' '' \<notin> set b" by (simp add: b_def str_int_no_space)
  have ne: "?c \<noteq> []" using str_int_last by simp
  have "tok \<noteq> []" "is_digit (hd tok)"
    using ne str_int_hd[OF assms(2)] by (simp_all add: tok_def hd_append)
  then have lo: "lower tok \<noteq> ''appendix''" by (rule lower_not_appendix)
  have "Entry_str e = tok @ CHR '' '' # m @ CHR '' '' # b"
    using assms by (auto simp: Entry_str_def tok_def m_def b_def)
  then have "split_line (Entry_str e) = (tok, m, b)"
    using split_line_three[OF sp pg lo, of m] by (simp only:)
  then show ?thesis unfolding tok_def m_def b_def .
qed

text \<open>
  Claim C8, as amended. Take an entry that is no appendix entry, whose chapter number is
  not negative and whose section or subsection is not zero. Splitting its label gives
  the dotted section token, the title between "- " and " (page", and the page number
  followed by the closing parenthesis as page token. Building an entry from this
  triple raises \<open>ValueError\<close>, since the page token is no integer; with the characters
  after the last digit stripped from the page token, it gives back the chapter, section,
  subsection and page of the entry.
\<close>

theorem Entry_str_round_trip:
  assumes "\<not> appendix e" and "0 \<le> chapter_no e" and "section_no e \<noteq> 0 \<or> subsection_no e \<noteq> 0"
  shows "(case split_line (Entry_str e) of
            (sec, ttl, pg) \<Rightarrow>
              ttl = ''- '' @ title e @ '' (page'' \<and> pg = str_int (page e) @ '')''
              \<and> Entry_init ut sec ttl pg = Inl ValueError
              \<and> Entry_init ut sec ttl (strip_nonnumeric pg False True) = Inr (e\<lparr>title := ttl\<rparr>))"
proof -
  let ?c = "str_int (chapter_no e)" and ?s = "str_int (section_no e)" and ?u = "str_int (subsection_no e)"
  let ?tok = "if subsection_no e \<noteq> 0 then ?c @ ''.'' @ ?s @ ''.'' @ ?u else ?c @ ''.'' @ ?s"
  let ?ttl = "''- '' @ title e @ '' (page''"
  have ne: "?c \<noteq> []" using str_int_last by simp
  have "?tok \<noteq> []" "is_digit (hd ?tok)" using ne str_int_hd[OF assms(2)] by (simp_all add: hd_append)
  then have na: "\<not> prefix ''appendix '' (lower ?tok)" by (rule not_appendix_digit)
  have bad: "Entry_init ut ?tok ?ttl (str_int (page e) @ '')'') = Inl ValueError"
    by (simp add: Entry_init_def py_int_page_token)
  have good: "Entry_init ut ?tok ?ttl (str_int (page e)) = Inr (e\<lparr>title := ?ttl\<rparr>)"
  proof (cases "subsection_no e \<noteq> 0")
    case True
    then have tok: "?tok = ?c @ ''.'' @ ?s @ ''.'' @ ?u" by simp
    show ?thesis
      using Entry_init_numbers[OF na[unfolded tok] section_token_numbers(2)[OF assms(2)] py_int_str_int,
              of ut ?ttl] assms(1)
      unfolding tok by (simp add: numeral_2_eq_2)
  next
    case False
    then have tok: "?tok = ?c @ ''.'' @ ?s" by simp
    show ?thesis
      using Entry_init_numbers[OF na[unfolded tok] section_token_numbers(1)[OF assms(2)] py_int_str_int,
              of ut ?ttl] assms(1) False
      unfolding tok by (simp add: numeral_2_eq_2)
  qed
  show ?thesis
    unfolding Entry_str_split[OF assms] using bad good by (simp add: strip_page_token)
qed

text \<open>The amended C8 on the entry 5.2.2 of page 87.\<close>

theorem Entry_str_round_trip_witness:
  "Entry_str \<lparr>title = ''Devices'', page = 87, appendix = False, chapter_no = 5, section_no = 2, subsection_no = 2\<rparr>
     = ''5.2.2 - Devices (page 87)''
   \<and> split_line ''5.2.2 - Devices (page 87)'' = (''5.2.2'', ''- Devices (page'', ''87)'')
   \<and> Entry_init example_utils ''5.2.2'' ''- Devices (page'' ''87)'' = Inl ValueError
   \<and> Entry_init example_utils ''5.2.2'' ''- Devices (page'' (strip_nonnumeric ''87)'' False True)
     = Inr \<lparr>title = ''- Devices (page'', page = 87, appendix = False, chapter_no = 5, section_no = 2, subsection_no = 2\<rparr>"
proof -
  let ?e = "\<lparr>title = ''Devices'', page = 87, appendix = False, chapter_no = 5, section_no = 2, subsection_no = 2\<rparr>"
  have a: "\<not> appendix ?e" "0 \<le> chapter_no ?e" "section_no ?e \<noteq> 0 \<or> subsection_no ?e \<noteq> 0" by simp_all
  have s: "Entry_str ?e = ''5.2.2 - Devices (page 87)''" by code_simp
  have l: "split_line ''5.2.2 - Devices (page 87)'' = (''5.2.2'', ''- Devices (page'', ''87)'')" by code_simp
  show ?thesis
    using Entry_str_round_trip[OF a, of example_utils] unfolding s l by simp
qed

text \<open>
  Claim C8 as it is written fails for every entry: the page token of a label ends with
  the closing parenthesis, and the label of a chapter-level entry starts with "Ch.",
  which leaves no section number at all.
\<close>

theorem Entry_str_round_trip_counterexample:
  "Entry_str \<lparr>title = ''Methods'', page = 3, appendix = False, chapter_no = 1, section_no = 2, subsection_no = 0\<rparr>
     = ''1.2 - Methods (page 3)''
   \<and> split_line ''1.2 - Methods (page 3)'' = (''1.2'', ''- Methods (page'', ''3)'')
   \<and> Entry_init example_utils ''1.2'' ''- Methods (page'' ''3)'' = Inl ValueError
   \<and> Entry_str \<lparr>title = ''Introduction'', page = 1, appendix = False, chapter_no = 1, section_no = 0, subsection_no = 0\<rparr>
     = ''Ch. 1 - Introduction (page 1)''
   \<and> split_line ''Ch. 1 - Introduction (page 1)'' = (''Ch.'', ''1 - Introduction (page'', ''1)'')
   \<and> Entry_init example_utils ''Ch.'' ''1 - Introduction (page'' ''1)'' = Inl ValueError
   \<and> Entry_init example_utils ''Ch.'' ''1 - Introduction (page'' ''1'' = Inl ValueError"
proof -
  have 1: "Entry_str \<lparr>title = ''Methods'', page = 3, appendix = False, chapter_no = 1, section_no = 2, subsection_no = 0\<rparr>
     = ''1.2 - Methods (page 3)''" by code_simp
  have 2: "split_line ''1.2 - Methods (page 3)'' = (''1.2'', ''- Methods (page'', ''3)'')" by code_simp
  have 3: "Entry_init example_utils ''1.2'' ''- Methods (page'' ''3)'' = Inl ValueError" by code_simp
  have 4: "Entry_str \<lparr>title = ''Introduction'', page = 1, appendix = False, chapter_no = 1, section_no = 0, subsection_no = 0\<rparr>
     = ''Ch. 1 - Introduction (page 1)''" by code_simp
  have 5: "split_line ''Ch. 1 - Introduction (page 1)'' = (''Ch.'', ''1 - Introduction (page'', ''1)'')" by code_simp
  have 6: "Entry_init example_utils ''Ch.'' ''1 - Introduction (page'' ''1)'' = Inl ValueError" by code_simp
  have 7: "Entry_init example_utils ''Ch.'' ''1 - Introduction (page'' ''1'' = Inl ValueError" by code_simp
  from 1 2 3 4 5 6 7 show ?thesis by simp
qed

end
